theory Spec2Isabelle
  imports
    Main
    "HOL-Library.Char_ord"
    "HOL-Library.List_Lexorder"
    "HOL-Library.Sublist"
    "HOL-Library.AList"
    "HOL-Library.Multiset"
begin

section \<open>Data model\<close>

text \<open>
  A Python \<open>str\<close> is held as the list of the bytes of its UTF-8 encoding (a \<open>string\<close>):
  equality, the substring test \<open>in\<close> and the ordering of \<open>sorted\<close> agree on both views,
  and the store only ever encodes a file content (\<open>_file_hash\<close>, the mirror write).
  A \<open>bytes\<close> value is a \<open>string\<close> as well. Python's \<open>int\<close> is \<open>int\<close>. A \<open>dict\<close> is an
  association list in insertion order; a \<open>set\<close> is a list without duplicates whose order
  no result depends on.
\<close>

text \<open>\<open>parser/symbols.py\<close>, class \<open>Symbol\<close>; \<open>symbol_id\<close> is its field \<open>id\<close>.\<close>

record symbol =
  symbol_id :: string
  "file" :: string
  name :: string
  qualified_name :: string
  kind :: string
  language :: string
  signature :: string
  docstring :: string
  summary :: string
  decorators :: "string list"
  "keywords" :: "string list"
  parent :: "string option"
  line :: int
  end_line :: int
  byte_offset :: int
  byte_length :: int
  content_hash :: string

text \<open>
  \<open>IndexStore._symbol_to_dict\<close> copies the seventeen fields into a dict under the same
  keys. Every symbol dict of a manifest is written by it, so a symbol dict is the record
  again and the defaults of \<open>sym.get(key, default)\<close> never apply.
\<close>

definition symbol_to_dict :: "symbol \<Rightarrow> symbol" where
  "symbol_to_dict s = s"

definition INDEX_VERSION :: int where
  "INDEX_VERSION = 2"

text \<open>\<open>storage/index_store.py\<close>, class \<open>CodeIndex\<close>; \<open>repo_name\<close> is its field \<open>name\<close>.\<close>

record CodeIndex =
  repo :: string
  owner :: string
  repo_name :: string
  indexed_at :: string
  source_files :: "string list"
  languages :: "(string \<times> int) list"
  symbols :: "symbol list"
  index_version :: int
  file_hashes :: "(string \<times> string) list"
  git_head :: string

section \<open>Ranked search\<close>

text \<open>Python's \<open>needle in haystack\<close> on strings.\<close>

definition str_in :: "string \<Rightarrow> string \<Rightarrow> bool" where
  "str_in needle haystack = sublist needle haystack"

text \<open>
  One \<open>for word in query_words: if word in text: score += k\<close> loop of \<open>_score_symbol\<close>.
\<close>

definition add_word_hits :: "int \<Rightarrow> string \<Rightarrow> string list \<Rightarrow> int \<Rightarrow> int" where
  "add_word_hits k text query_words score =
     fold (\<lambda>word sc. if str_in word text then sc + k else sc) query_words score"

text \<open>
  \<open>CodeIndex._score_symbol\<close>. \<open>lower\<close> stands for Python's \<open>str.lower\<close>, a table of the
  Unicode database; \<open>query_words\<close> is the set of query words as a duplicate-free list.
\<close>

definition score_symbol ::
  "(string \<Rightarrow> string) \<Rightarrow> symbol \<Rightarrow> string \<Rightarrow> string list \<Rightarrow> int" where
  "score_symbol lower smb query_lower query_words =
     (let score = 0;
          name_lower = lower (name smb);
          score = (if query_lower = name_lower then score + 20
                   else if str_in query_lower name_lower then score + 10
                   else score);
          score = add_word_hits 5 name_lower query_words score;
          sig_lower = lower (signature smb);
          score = (if str_in query_lower sig_lower then score + 8 else score);
          score = add_word_hits 2 sig_lower query_words score;
          summary_lower = lower (summary smb);
          score = (if str_in query_lower summary_lower then score + 5 else score);
          score = add_word_hits 1 summary_lower query_words score;
          matching_keywords = filter (\<lambda>w. w \<in> set (keywords smb)) query_words;
          score = score + int (length matching_keywords) * 3;
          doc_lower = lower (docstring smb);
          score = add_word_hits 1 doc_lower query_words score
      in score)"

text \<open>
  \<open>CodeIndex._match_pattern\<close>; \<open>fnmatch\<close> stands for Python's \<open>fnmatch.fnmatch\<close>.
\<close>

definition match_pattern :: "(string \<Rightarrow> string \<Rightarrow> bool) \<Rightarrow> string \<Rightarrow> string \<Rightarrow> bool" where
  "match_pattern fnmatch file_path pattern =
     (fnmatch file_path pattern \<or> fnmatch file_path (''*/'' @ pattern))"

text \<open>
  The two filters at the head of the loop of \<open>CodeIndex.search\<close>: a symbol is skipped
  (\<open>continue\<close>) when a filter is given, is not empty and does not match.
\<close>

definition passes_filters ::
  "(string \<Rightarrow> string \<Rightarrow> bool) \<Rightarrow> string option \<Rightarrow> string option \<Rightarrow> symbol \<Rightarrow> bool" where
  "passes_filters fnmatch kind_filter file_pattern smb =
     (\<not> (case kind_filter of None \<Rightarrow> False | Some k \<Rightarrow> k \<noteq> [] \<and> kind smb \<noteq> k) \<and>
      \<not> (case file_pattern of None \<Rightarrow> False
         | Some p \<Rightarrow> p \<noteq> [] \<and> \<not> match_pattern fnmatch (file smb) p))"

text \<open>
  \<open>CodeIndex.search\<close>. \<open>split\<close> stands for Python's \<open>str.split()\<close>; \<open>set(...)\<close> removes
  the duplicates. \<open>scored.sort(key=lambda x: x[0], reverse=True)\<close> is a stable sort in
  descending order of the score, that is a stable ascending sort on the negated score.
\<close>

definition search ::
  "(string \<Rightarrow> string) \<Rightarrow> (string \<Rightarrow> string list) \<Rightarrow> (string \<Rightarrow> string \<Rightarrow> bool) \<Rightarrow>
   CodeIndex \<Rightarrow> string \<Rightarrow> string option \<Rightarrow> string option \<Rightarrow> symbol list" where
  "search lower split fnmatch index query kind_filter file_pattern =
     (let query_lower = lower query;
          query_words = remdups (split query_lower);
          scored = concat (map (\<lambda>smb.
                     if \<not> passes_filters fnmatch kind_filter file_pattern smb then []
                     else (let score = score_symbol lower smb query_lower query_words
                           in if score > 0 then [(score, smb)] else []))
                   (symbols index));
          scored = sort_key (\<lambda>x. - fst x) scored
      in map snd scored)"

text \<open>
  The score as the specification tabulates it, over the set of query words.
\<close>

definition word_hits :: "string \<Rightarrow> string set \<Rightarrow> int" where
  "word_hits text qw = int (card {w \<in> qw. str_in w text})"

definition score_table :: "(string \<Rightarrow> string) \<Rightarrow> symbol \<Rightarrow> string \<Rightarrow> string set \<Rightarrow> int" where
  "score_table lower smb q qw =
     (if q = lower (name smb) then 20 else if str_in q (lower (name smb)) then 10 else 0)
     + 5 * word_hits (lower (name smb)) qw
     + (if str_in q (lower (signature smb)) then 8 else 0)
     + 2 * word_hits (lower (signature smb)) qw
     + (if str_in q (lower (summary smb)) then 5 else 0)
     + 1 * word_hits (lower (summary smb)) qw
     + 3 * int (card (qw \<inter> set (keywords smb)))
     + 1 * word_hits (lower (docstring smb)) qw"

text \<open>ASCII instances of \<open>str.lower\<close> and \<open>str.split\<close>, exact on ASCII text.\<close>

definition ascii_lower_char :: "char \<Rightarrow> char" where
  "ascii_lower_char c =
     (if 65 \<le> (of_char c :: nat) \<and> (of_char c :: nat) \<le> 90
      then char_of ((of_char c :: nat) + 32) else c)"

definition ascii_lower :: "string \<Rightarrow> string" where
  "ascii_lower s = map ascii_lower_char s"

definition ascii_space :: "char \<Rightarrow> bool" where
  "ascii_space c = ((of_char c :: nat) \<in> {9, 10, 11, 12, 13, 28, 29, 30, 31, 32})"

fun split_acc :: "string \<Rightarrow> string \<Rightarrow> string list" where
  "split_acc w [] = (if w = [] then [] else [rev w])"
| "split_acc w (c # cs) =
     (if ascii_space c then (if w = [] then [] else [rev w]) @ split_acc [] cs
      else split_acc (c # w) cs)"

definition ascii_split :: "string \<Rightarrow> string list" where
  "ascii_split s = split_acc [] s"

text \<open>The score that \<open>search\<close> gives a symbol for a query.\<close>

definition query_score ::
  "(string \<Rightarrow> string) \<Rightarrow> (string \<Rightarrow> string list) \<Rightarrow> string \<Rightarrow> symbol \<Rightarrow> int" where
  "query_score lower split query s =
     score_symbol lower s (lower query) (remdups (split (lower query)))"

text \<open>
  The constructor of the dataclass \<open>Symbol\<close> with its seven required fields; the other
  fields take the defaults the dataclass declares.
\<close>

definition Symbol ::
  "string \<Rightarrow> string \<Rightarrow> string \<Rightarrow> string \<Rightarrow> string \<Rightarrow> string \<Rightarrow> string \<Rightarrow> symbol" where
  "Symbol i f n q k l sg =
     \<lparr>symbol_id = i, file = f, name = n, qualified_name = q, kind = k, language = l,
      signature = sg, docstring = [], summary = [], decorators = [], keywords = [],
      parent = None, line = 0, end_line = 0, byte_offset = 0, byte_length = 0,
      content_hash = []\<rparr>"

text \<open>A small index for the examples: four symbols of one Python file.\<close>

definition ex_index :: CodeIndex where
  "ex_index = \<lparr>repo = ''o/r'', owner = ''o'', repo_name = ''r'', indexed_at = ''t'',
     source_files = [''a.py''], languages = [(''python'', 1)],
     symbols =
       [Symbol ''a.py::get_user#function'' ''a.py'' ''get_user'' ''get_user'' ''function''
          ''python'' ''def get_user(uid)'',
        Symbol ''a.py::delete_user#function'' ''a.py'' ''delete_user'' ''delete_user''
          ''function'' ''python'' ''def delete_user(uid)'',
        Symbol ''a.py::User#class'' ''a.py'' ''User'' ''User'' ''class'' ''python''
          ''class User'',
        Symbol ''a.py::MAX#constant'' ''a.py'' ''MAX'' ''MAX'' ''constant'' ''python''
          ''MAX = 3''],
     index_version = 2, file_hashes = [], git_head = []\<rparr>"

text \<open>Three symbols that differ in the name only, for the query \<open>login\<close>.\<close>

definition ex_exact :: symbol where
  "ex_exact = Symbol ''a.py::Login#function'' ''a.py'' ''Login'' ''Login'' ''function''
     ''python'' ''def f(login)''"

definition ex_substring :: symbol where
  "ex_substring = Symbol ''a.py::login_user#function'' ''a.py'' ''login_user'' ''login_user''
     ''function'' ''python'' ''def f(login)''"

definition ex_signature :: symbol where
  "ex_signature = Symbol ''a.py::auth#function'' ''a.py'' ''auth'' ''auth'' ''function''
     ''python'' ''def f(login)''"

section \<open>Index store\<close>

text \<open>
  The exceptions the store can raise on the paths modelled here: \<open>json.load\<close> on a file
  that is not JSON, a missing key of the manifest, \<open>seek\<close> to a negative offset, \<open>read\<close>
  of a length below \<open>-1\<close>. Failures of the environment (permissions, a full disk,
  exhausted memory) are outside the model.
\<close>

datatype error = JSONDecodeError | KeyError string | OSError | ValueError

definition try_bind :: "error + 'a \<Rightarrow> ('a \<Rightarrow> error + 'b) \<Rightarrow> error + 'b" where
  "try_bind r f = (case r of Inl e \<Rightarrow> Inl e | Inr x \<Rightarrow> f x)"

text \<open>
  The top-level JSON object of a manifest file, key by key; \<open>None\<close> is an absent key.
\<close>

record manifest =
  m_repo :: "string option"
  m_owner :: "string option"
  m_name :: "string option"
  m_indexed_at :: "string option"
  m_source_files :: "string list option"
  m_languages :: "(string \<times> int) list option"
  m_symbols :: "symbol list option"
  m_index_version :: "int option"
  m_file_hashes :: "(string \<times> string) list option"
  m_git_head :: "string option"

datatype json_file = Malformed | Object manifest

text \<open>
  The file-system calls of the store, in the order they are made. The base directory is
  the store itself: \<open>json_files\<close> are the files directly under it (manifests and their
  temporary siblings) in the order a directory listing yields them, \<open>content_files\<close>
  the files of the mirrored trees under their path relative to the base directory.
  Directories are not tracked.
\<close>

datatype event =
    WriteJson string
  | Replace string string
  | Mkdir string
  | Unlink string
  | WriteFile string

record store =
  json_files :: "(string \<times> json_file) list"
  content_files :: "(string \<times> string) list"
  trace :: "event list"

definition empty_store :: store where
  "empty_store = \<lparr>json_files = [], content_files = [], trace = []\<rparr>"

text \<open>\<open>with open(path, "w") as f: json.dump(data, f, indent=2)\<close>\<close>

definition write_json :: "string \<Rightarrow> manifest \<Rightarrow> store \<Rightarrow> store" where
  "write_json path data st =
     st\<lparr>json_files := AList.update path (Object data) (json_files st),
        trace := trace st @ [WriteJson path]\<rparr>"

text \<open>
  \<open>Path.replace\<close>: the rename over the target. The source always exists here, since the
  store renames the file it has just written; without it nothing changes.
\<close>

definition path_replace :: "string \<Rightarrow> string \<Rightarrow> store \<Rightarrow> store" where
  "path_replace src dst st =
     (case map_of (json_files st) src of
        None \<Rightarrow> st
      | Some f \<Rightarrow>
          st\<lparr>json_files := AList.update dst f (AList.delete src (json_files st)),
             trace := trace st @ [Replace src dst]\<rparr>)"

text \<open>\<open>Path.mkdir(parents=True, exist_ok=True)\<close>\<close>

definition mkdir :: "string \<Rightarrow> store \<Rightarrow> store" where
  "mkdir path st = st\<lparr>trace := trace st @ [Mkdir path]\<rparr>"

text \<open>\<open>with open(path, "w", encoding="utf-8") as f: f.write(content)\<close>\<close>

definition write_file :: "string \<Rightarrow> string \<Rightarrow> store \<Rightarrow> store" where
  "write_file path content st =
     st\<lparr>content_files := AList.update path content (content_files st),
        trace := trace st @ [WriteFile path]\<rparr>"

definition path_exists :: "store \<Rightarrow> string \<Rightarrow> bool" where
  "path_exists st path = (map_of (content_files st) path \<noteq> None)"

definition unlink :: "string \<Rightarrow> store \<Rightarrow> store" where
  "unlink path st =
     st\<lparr>content_files := AList.delete path (content_files st),
        trace := trace st @ [Unlink path]\<rparr>"

text \<open>\<open>IndexStore._index_path\<close>, its sibling \<open>with_suffix(".json.tmp")\<close>, \<open>_content_dir\<close>.\<close>

definition index_path :: "string \<Rightarrow> string \<Rightarrow> string" where
  "index_path own nm = own @ ''-'' @ nm @ ''.json''"

definition tmp_path :: "string \<Rightarrow> string \<Rightarrow> string" where
  "tmp_path own nm = own @ ''-'' @ nm @ ''.json.tmp''"

definition content_dir :: "string \<Rightarrow> string \<Rightarrow> string" where
  "content_dir own nm = own @ ''-'' @ nm"

text \<open>The \<open>/\<close> of \<open>pathlib\<close> and \<open>Path.parent\<close>, on relative paths.\<close>

definition join :: "string \<Rightarrow> string \<Rightarrow> string" where
  "join dir rel = dir @ ''/'' @ rel"

definition path_parent :: "string \<Rightarrow> string" where
  "path_parent path = rev (drop 1 (dropWhile (\<lambda>c. c \<noteq> CHR ''/'') (rev path)))"

text \<open>
  \<open>_file_hash\<close>: \<open>hashlib.sha256(content.encode("utf-8")).hexdigest()\<close>. \<open>sha256\<close> stands
  for the digest function of \<open>hashlib\<close>, from bytes to the hexadecimal digest.
\<close>

definition file_hash :: "(string \<Rightarrow> string) \<Rightarrow> string \<Rightarrow> string" where
  "file_hash sha256 content = sha256 content"

text \<open>\<open>IndexStore._index_to_dict\<close>\<close>

definition index_to_dict :: "CodeIndex \<Rightarrow> manifest" where
  "index_to_dict index =
     \<lparr>m_repo = Some (repo index), m_owner = Some (owner index),
      m_name = Some (repo_name index), m_indexed_at = Some (indexed_at index),
      m_source_files = Some (source_files index), m_languages = Some (languages index),
      m_symbols = Some (symbols index), m_index_version = Some (index_version index),
      m_file_hashes = Some (file_hashes index), m_git_head = Some (git_head index)\<rparr>"

text \<open>
  The loop \<open>for file_path, content in raw_files.items()\<close> that writes the mirror, shared
  by \<open>save_index\<close> and \<open>incremental_save\<close>.
\<close>

definition write_raw_files :: "string \<Rightarrow> (string \<times> string) list \<Rightarrow> store \<Rightarrow> store" where
  "write_raw_files dir raw_files st =
     fold (\<lambda>(file_path, content) st.
             write_file (join dir file_path) content
               (mkdir (path_parent (join dir file_path)) st))
       raw_files st"

text \<open>
  \<open>IndexStore.save_index\<close>. \<open>now\<close> is the value of \<open>datetime.now().isoformat()\<close>;
  \<open>hashes\<close> is the optional argument \<open>file_hashes\<close>.
\<close>

definition save_index ::
  "(string \<Rightarrow> string) \<Rightarrow> string \<Rightarrow> string \<Rightarrow> string \<Rightarrow> string list \<Rightarrow> symbol list \<Rightarrow>
   (string \<times> string) list \<Rightarrow> (string \<times> int) list \<Rightarrow> (string \<times> string) list option \<Rightarrow>
   string \<Rightarrow> store \<Rightarrow> CodeIndex \<times> store" where
  "save_index sha256 now own nm srcs syms raw_files langs hashes head st =
     (let hashes' = (case hashes of
                       None \<Rightarrow> map (\<lambda>(fp, content). (fp, file_hash sha256 content)) raw_files
                     | Some h \<Rightarrow> h);
          index = \<lparr>repo = own @ ''/'' @ nm, owner = own, repo_name = nm, indexed_at = now,
                   source_files = srcs, languages = langs,
                   symbols = map symbol_to_dict syms, index_version = INDEX_VERSION,
                   file_hashes = hashes', git_head = head\<rparr>;
          st = write_json (tmp_path own nm) (index_to_dict index) st;
          st = path_replace (tmp_path own nm) (index_path own nm) st;
          st = mkdir (content_dir own nm) st;
          st = write_raw_files (content_dir own nm) raw_files st
      in (index, st))"

text \<open>
  \<open>IndexStore.load_index\<close>. The keyword arguments of \<open>CodeIndex(...)\<close> are evaluated in
  the order written, so the first missing required key is the one reported.
\<close>

definition require :: "string \<Rightarrow> 'a option \<Rightarrow> error + 'a" where
  "require key v = (case v of None \<Rightarrow> Inl (KeyError key) | Some x \<Rightarrow> Inr x)"

definition load_index :: "store \<Rightarrow> string \<Rightarrow> string \<Rightarrow> error + CodeIndex option" where
  "load_index st own nm =
     (case map_of (json_files st) (index_path own nm) of
        None \<Rightarrow> Inr None
      | Some Malformed \<Rightarrow> Inl JSONDecodeError
      | Some (Object data) \<Rightarrow>
          (let stored_version = (case m_index_version data of None \<Rightarrow> 1 | Some v \<Rightarrow> v)
           in if stored_version > INDEX_VERSION then Inr None
              else
                try_bind (require ''repo'' (m_repo data)) (\<lambda>r.
                try_bind (require ''owner'' (m_owner data)) (\<lambda>ow.
                try_bind (require ''name'' (m_name data)) (\<lambda>n.
                try_bind (require ''indexed_at'' (m_indexed_at data)) (\<lambda>at.
                try_bind (require ''source_files'' (m_source_files data)) (\<lambda>sf.
                try_bind (require ''languages'' (m_languages data)) (\<lambda>ls.
                try_bind (require ''symbols'' (m_symbols data)) (\<lambda>sy.
                  Inr (Some \<lparr>repo = r, owner = ow, repo_name = n, indexed_at = at,
                             source_files = sf, languages = ls, symbols = sy,
                             index_version = stored_version,
                             file_hashes = (case m_file_hashes data of None \<Rightarrow> [] | Some h \<Rightarrow> h),
                             git_head = (case m_git_head data of None \<Rightarrow> [] | Some g \<Rightarrow> g)\<rparr>))))))))))"

text \<open>\<open>CodeIndex.get_symbol\<close>: the first symbol of the list with the id.\<close>

definition get_symbol :: "CodeIndex \<Rightarrow> string \<Rightarrow> symbol option" where
  "get_symbol index sid = find (\<lambda>s. symbol_id s = sid) (symbols index)"
subsection \<open>Reading a symbol's bytes\<close>

text \<open>
  Python's \<open>bytes.decode("utf-8", errors="replace")\<close>, giving the decoded \<open>str\<close> in its
  UTF-8 encoding again: a well-formed sequence is kept, and each maximal ill-formed part
  becomes one U+FFFD, the bytes EF BF BD. \<open>utf8_scan\<close> follows the decoder of CPython on
  the first character of a non-empty input: it returns whether a well-formed sequence
  starts there, and the number of bytes that sequence or the ill-formed part takes.
\<close>

definition is_continuation :: "char \<Rightarrow> bool" where
  "is_continuation c = (128 \<le> (of_char c :: nat) \<and> (of_char c :: nat) < 192)"

text \<open>
  The second byte after the lead byte \<open>b\<close>: a continuation byte, outside the ranges that
  would encode an overlong form (E0, F0), a surrogate (ED) or a value above 10FFFF (F4).
\<close>

definition second_ok :: "nat \<Rightarrow> char \<Rightarrow> bool" where
  "second_ok b c =
     (is_continuation c \<and>
      \<not> (b = 224 \<and> (of_char c :: nat) < 160) \<and>
      \<not> (b = 237 \<and> 160 \<le> (of_char c :: nat)) \<and>
      \<not> (b = 240 \<and> (of_char c :: nat) < 144) \<and>
      \<not> (b = 244 \<and> 144 \<le> (of_char c :: nat)))"

definition utf8_scan :: "string \<Rightarrow> bool \<times> nat" where
  "utf8_scan s =
     (let b = (of_char (hd s) :: nat); n = length s in
      if b < 128 then (True, 1)
      else if b < 194 then (False, 1)
      else if b < 224 then
        (if n < 2 then (False, n)
         else if \<not> is_continuation (s ! 1) then (False, 1)
         else (True, 2))
      else if b < 240 then
        (if n < 2 then (False, n)
         else if \<not> second_ok b (s ! 1) then (False, 1)
         else if n < 3 then (False, n)
         else if \<not> is_continuation (s ! 2) then (False, 2)
         else (True, 3))
      else if b < 245 then
        (if n < 2 then (False, n)
         else if \<not> second_ok b (s ! 1) then (False, 1)
         else if n < 3 then (False, n)
         else if \<not> is_continuation (s ! 2) then (False, 2)
         else if n < 4 then (False, n)
         else if \<not> is_continuation (s ! 3) then (False, 3)
         else (True, 4))
      else (False, 1))"

definition replacement_character :: string where
  "replacement_character = [CHR 0xEF, CHR 0xBF, CHR 0xBD]"

function utf8_decode_replace :: "string \<Rightarrow> string" where
  "utf8_decode_replace s =
     (if s = [] then []
      else (if fst (utf8_scan s) then take (snd (utf8_scan s)) s else replacement_character)
           @ utf8_decode_replace (drop (snd (utf8_scan s)) s))"
  by pat_completeness auto
termination
  by (relation "measure length")
     (auto simp: utf8_scan_def Let_def neq_Nil_conv split: if_splits)

text \<open>
  \<open>f.seek(offset)\<close> followed by \<open>f.read(size)\<close> on a file opened with \<open>"rb"\<close>: a seek
  past the end is allowed and the read returns the bytes that exist; a negative offset
  raises \<open>OSError\<close>; a size of \<open>-1\<close> reads to the end and a size below raises
  \<open>ValueError\<close>.
\<close>

definition seek_read :: "string \<Rightarrow> int \<Rightarrow> int \<Rightarrow> error + string" where
  "seek_read bytes offset len =
     (if offset < 0 then Inl OSError
      else if len < - 1 then Inl ValueError
      else if len = - 1 then Inr (drop (nat offset) bytes)
      else Inr (take (nat len) (drop (nat offset) bytes)))"

text \<open>\<open>IndexStore.get_symbol_content\<close>\<close>

definition get_symbol_content ::
  "store \<Rightarrow> string \<Rightarrow> string \<Rightarrow> string \<Rightarrow> error + string option" where
  "get_symbol_content st own nm sid =
     try_bind (load_index st own nm) (\<lambda>index.
       case index of
         None \<Rightarrow> Inr None
       | Some idx \<Rightarrow>
           (case get_symbol idx sid of
              None \<Rightarrow> Inr None
            | Some s \<Rightarrow>
                (case map_of (content_files st) (join (content_dir own nm) (file s)) of
                   None \<Rightarrow> Inr None
                 | Some bytes \<Rightarrow>
                     try_bind (seek_read bytes (byte_offset s) (byte_length s))
                       (\<lambda>source_bytes. Inr (Some (utf8_decode_replace source_bytes))))))"

subsection \<open>Change detection and incremental save\<close>

text \<open>
  \<open>IndexStore.detect_changes\<close>. The three lists come from Python sets, whose order is
  not specified; the model lists them in the order of the dicts they are taken from.
  \<open>old_hashes[fp] != current_hashes[fp]\<close> is evaluated for keys of both dicts only.
\<close>

definition detect_changes ::
  "(string \<Rightarrow> string) \<Rightarrow> store \<Rightarrow> string \<Rightarrow> string \<Rightarrow> (string \<times> string) list \<Rightarrow>
   error + (string list \<times> string list \<times> string list)" where
  "detect_changes sha256 st own nm current_files =
     try_bind (load_index st own nm) (\<lambda>index.
       case index of
         None \<Rightarrow> Inr ([], map fst current_files, [])
       | Some idx \<Rightarrow>
           (let old_hashes = file_hashes idx;
                current_hashes =
                  map (\<lambda>(fp, content). (fp, file_hash sha256 content)) current_files;
                old_set = remdups (map fst old_hashes);
                new_set = remdups (map fst current_hashes);
                new_files = filter (\<lambda>fp. fp \<notin> set old_set) new_set;
                deleted_files = filter (\<lambda>fp. fp \<notin> set new_set) old_set;
                changed_files =
                  filter (\<lambda>fp. map_of old_hashes fp \<noteq> map_of current_hashes fp)
                    (filter (\<lambda>fp. fp \<in> set new_set) old_set)
            in Inr (changed_files, new_files, deleted_files)))"

text \<open>\<open>set.discard\<close> and \<open>set.add\<close> on a set held as a duplicate-free list.\<close>

definition set_discard :: "'a \<Rightarrow> 'a list \<Rightarrow> 'a list" where
  "set_discard x xs = removeAll x xs"

definition set_add :: "'a \<Rightarrow> 'a list \<Rightarrow> 'a list" where
  "set_add x xs = (if x \<in> set xs then xs else xs @ [x])"

text \<open>\<open>IndexStore.incremental_save\<close>\<close>

definition incremental_save ::
  "(string \<Rightarrow> string) \<Rightarrow> string \<Rightarrow> string \<Rightarrow> string \<Rightarrow> string list \<Rightarrow> string list \<Rightarrow>
   string list \<Rightarrow> symbol list \<Rightarrow> (string \<times> string) list \<Rightarrow> (string \<times> int) list \<Rightarrow>
   string \<Rightarrow> store \<Rightarrow> error + (CodeIndex option \<times> store)" where
  "incremental_save sha256 now own nm changed_files new_files deleted_files new_symbols
     raw_files langs head st =
     try_bind (load_index st own nm) (\<lambda>index.
       case index of
         None \<Rightarrow> Inr (None, st)
       | Some idx \<Rightarrow>
           (let files_to_remove = set deleted_files \<union> set changed_files;
                kept_symbols = filter (\<lambda>s. file s \<notin> files_to_remove) (symbols idx);
                all_symbols_dicts = kept_symbols @ map symbol_to_dict new_symbols;
                old_files = remdups (source_files idx);
                old_files = fold set_discard deleted_files old_files;
                old_files = fold set_add new_files old_files;
                old_files = fold set_add changed_files old_files;
                hashes = file_hashes idx;
                hashes = fold AList.delete deleted_files hashes;
                hashes = fold (\<lambda>(fp, content). AList.update fp (file_hash sha256 content))
                           raw_files hashes;
                updated = \<lparr>repo = own @ ''/'' @ nm, owner = own, repo_name = nm,
                            indexed_at = now, source_files = sort old_files,
                            languages = langs, symbols = all_symbols_dicts,
                            index_version = INDEX_VERSION, file_hashes = hashes,
                            git_head = head\<rparr>;
                st = write_json (tmp_path own nm) (index_to_dict updated) st;
                st = path_replace (tmp_path own nm) (index_path own nm) st;
                st = mkdir (content_dir own nm) st;
                st = fold (\<lambda>fp st. if path_exists st (join (content_dir own nm) fp)
                                     then unlink (join (content_dir own nm) fp) st else st)
                       deleted_files st;
                st = write_raw_files (content_dir own nm) raw_files st
            in Inr (Some updated, st)))"

subsection \<open>Listing and resolving repositories\<close>






subsection \<open>Reading the model\<close>

text \<open>The JSON object in the manifest file of a repository, when the file parses.\<close>

definition read_manifest :: "store \<Rightarrow> string \<Rightarrow> string \<Rightarrow> manifest option" where
  "read_manifest st own nm =
     (case map_of (json_files st) (index_path own nm) of
        Some (Object data) \<Rightarrow> Some data
      | _ \<Rightarrow> None)"

text \<open>The file-system calls that the loop over \<open>raw_files\<close> makes, in order.\<close>

definition raw_events :: "string \<Rightarrow> (string \<times> string) list \<Rightarrow> event list" where
  "raw_events dir raw_files =
     concat (map (\<lambda>(file_path, content).
                    [Mkdir (path_parent (join dir file_path)), WriteFile (join dir file_path)])
               raw_files)"

definition is_mirror_event :: "event \<Rightarrow> bool" where
  "is_mirror_event e = (case e of WriteFile _ \<Rightarrow> True | Unlink _ \<Rightarrow> True | _ \<Rightarrow> False)"

text \<open>
  A stand-in for the digest in the examples; the theorems hold for every digest function.
\<close>

definition ex_sha256 :: "string \<Rightarrow> string" where
  "ex_sha256 bytes = ''sha256:'' @ bytes"

text \<open>
  The store of the tests of incremental reindexing: \<open>hello.py\<close> and \<open>greet.js\<close> saved
  under \<open>test/repo\<close>.
\<close>

definition ex_hello :: symbol where
  "ex_hello = (Symbol ''hello.py::hello#function'' ''hello.py'' ''hello'' ''hello''
      ''function'' ''python'' ''def hello():'')
      \<lparr>line := 1, end_line := 2, byte_offset := 0, byte_length := 21,
       content_hash := ex_sha256 ''def hello():\<newline>    pass''\<rparr>"

definition ex_greet :: symbol where
  "ex_greet = (Symbol ''greet.js::greet#function'' ''greet.js'' ''greet'' ''greet''
      ''function'' ''javascript'' ''function greet()'')
      \<lparr>line := 1, end_line := 1, byte_offset := 0, byte_length := 30,
       content_hash := ex_sha256 ''function greet() { return 1; }''\<rparr>"

definition ex_raw_files :: "(string \<times> string) list" where
  "ex_raw_files =
     [(''hello.py'', ''def hello():\<newline>    pass\<newline>''),
      (''greet.js'', ''function greet() { return 1; }\<newline>'')]"

definition ex_saved :: "CodeIndex \<times> store" where
  "ex_saved = save_index ex_sha256 ''2024-01-01T00:00:00'' ''test'' ''repo''
     [''hello.py'', ''greet.js''] [ex_hello, ex_greet] ex_raw_files
     [(''python'', 1), (''javascript'', 1)] None [] empty_store"

text \<open>
  Whether a trace has every mirror write and delete before the first rename of a
  manifest: no such event follows the rename.
\<close>

definition is_replace :: "event \<Rightarrow> bool" where
  "is_replace e = (case e of Replace _ _ \<Rightarrow> True | _ \<Rightarrow> False)"

definition mirror_before_rename :: "event list \<Rightarrow> bool" where
  "mirror_before_rename tr =
     (filter is_mirror_event (dropWhile (\<lambda>e. \<not> is_replace e) tr) = [])"

text \<open>
  The saved store with the version of its manifest patched to 102, as the test of
  versioning does; and a store whose manifest lacks the optional keys.
\<close>

definition ex_future :: store where
  "ex_future = (snd ex_saved)
     \<lparr>json_files :=
        [(''test-repo.json'',
          Object ((index_to_dict (fst ex_saved))\<lparr>m_index_version := Some 102\<rparr>))]\<rparr>"

definition ex_legacy_manifest :: manifest where
  "ex_legacy_manifest =
     \<lparr>m_repo = Some ''o/r'', m_owner = Some ''o'', m_name = Some ''r'',
      m_indexed_at = Some ''2023-01-01T00:00:00'', m_source_files = Some [''a.py''],
      m_languages = Some [(''python'', 1)], m_symbols = Some [],
      m_index_version = None, m_file_hashes = None, m_git_head = None\<rparr>"

definition ex_legacy :: store where
  "ex_legacy = \<lparr>json_files = [(''o-r.json'', Object ex_legacy_manifest)],
                 content_files = [], trace = []\<rparr>"

text \<open>
  The incremental save of the tests: \<open>hello.py\<close> changed to define \<open>goodbye\<close>,
  \<open>greet.js\<close> deleted.
\<close>

definition ex_goodbye :: symbol where
  "ex_goodbye = (Symbol ''hello.py::goodbye#function'' ''hello.py'' ''goodbye'' ''goodbye''
      ''function'' ''python'' ''def goodbye():'')
      \<lparr>line := 1, end_line := 2, byte_offset := 0, byte_length := 28,
       content_hash := ex_sha256 ''def goodbye():\<newline>    return 99''\<rparr>"

definition ex_incremental :: "error + (CodeIndex option \<times> store)" where
  "ex_incremental = incremental_save ex_sha256 ''2024-01-02T00:00:00'' ''test'' ''repo''
     [''hello.py''] [] [''greet.js''] [ex_goodbye]
     [(''hello.py'', ''def goodbye():\<newline>    return 99\<newline>'')] [(''python'', 1)] []
     (snd ex_saved)"


text \<open>The current files of the change-detection example.\<close>

definition ex_current_files :: "(string \<times> string) list" where
  "ex_current_files =
     [(''hello.py'', ''def hello():\<newline>    return 42\<newline>''), (''extra.py'', ''x = 1\<newline>'')]"

declare utf8_decode_replace.simps [simp del]

text \<open>
  Well-formed UTF-8, after table 3-7 of the Unicode standard: one ASCII byte; a lead
  byte C2..DF and one continuation byte; a lead byte E0..EF, a second byte in the range
  the lead allows and one continuation byte; a lead byte F0..F4, a second byte in the
  range the lead allows and two continuation bytes.
\<close>

inductive well_formed_utf8 :: "string \<Rightarrow> bool" where
  wf_empty: "well_formed_utf8 []"
| wf_one: "(of_char c :: nat) < 128 \<Longrightarrow> well_formed_utf8 s \<Longrightarrow> well_formed_utf8 (c # s)"
| wf_two: "194 \<le> (of_char c1 :: nat) \<Longrightarrow> (of_char c1 :: nat) < 224 \<Longrightarrow>
     is_continuation c2 \<Longrightarrow> well_formed_utf8 s \<Longrightarrow> well_formed_utf8 (c1 # c2 # s)"
| wf_three: "224 \<le> (of_char c1 :: nat) \<Longrightarrow> (of_char c1 :: nat) < 240 \<Longrightarrow>
     second_ok (of_char c1) c2 \<Longrightarrow> is_continuation c3 \<Longrightarrow> well_formed_utf8 s \<Longrightarrow>
     well_formed_utf8 (c1 # c2 # c3 # s)"
| wf_four: "240 \<le> (of_char c1 :: nat) \<Longrightarrow> (of_char c1 :: nat) < 245 \<Longrightarrow>
     second_ok (of_char c1) c2 \<Longrightarrow> is_continuation c3 \<Longrightarrow> is_continuation c4 \<Longrightarrow>
     well_formed_utf8 s \<Longrightarrow> well_formed_utf8 (c1 # c2 # c3 # c4 # s)"

text \<open>
  Stores for the examples of byte-range retrieval. In the first the symbol of
  \<open>greet.js\<close> claims 50 bytes of a file of 31, one symbol of \<open>hello.py\<close> starts at a
  negative offset and another one at offset 100, past the end of the file. In the second
  the file holds the two bytes of U+00E9 and the symbol covers the first of them only.
\<close>

definition ex_bad_saved :: "CodeIndex \<times> store" where
  "ex_bad_saved = save_index ex_sha256 ''2024-01-01T00:00:00'' ''test'' ''repo''
     [''hello.py'', ''greet.js'']
     [ex_hello\<lparr>byte_offset := - 1\<rparr>, ex_greet\<lparr>byte_length := 50\<rparr>,
      ex_hello\<lparr>symbol_id := ''hello.py::far#function'', byte_offset := 100\<rparr>]
     ex_raw_files [(''python'', 1), (''javascript'', 1)] None [] empty_store"

definition ex_cut_character :: store where
  "ex_cut_character = snd (save_index ex_sha256 ''2024-01-01T00:00:00'' ''test'' ''cut''
     [''e.py'']
     [(Symbol ''e.py::E#constant'' ''e.py'' ''E'' ''E'' ''constant'' ''python'' ''E'')
        \<lparr>byte_offset := 5, byte_length := 1\<rparr>]
     [(''e.py'', ''E = '' @ [CHR 0x22, CHR 0xC3, CHR 0xA9, CHR 0x22])]
     [(''python'', 1)] None [] empty_store)"





section \<open>Properties of the ranked search\<close>

lemma add_word_hits_count:
  "add_word_hits k text ws sc = sc + k * int (length (filter (\<lambda>w. str_in w text) ws))"
  unfolding add_word_hits_def
  by (induction ws arbitrary: sc) (simp_all add: algebra_simps)

lemma distinct_filter_card:
  "distinct ws \<Longrightarrow> length (filter P ws) = card {w \<in> set ws. P w}"
proof -
  assume d: "distinct ws"
  have "{w \<in> set ws. P w} = {x. P x} \<inter> set ws" by auto
  then show ?thesis using distinct_length_filter [OF d, of P] by simp
qed

lemma word_hits_list:
  "distinct ws \<Longrightarrow> int (length (filter (\<lambda>w. str_in w text) ws)) = word_hits text (set ws)"
  by (simp add: word_hits_def distinct_filter_card)

lemma keyword_hits_list:
  "distinct ws \<Longrightarrow> length (filter (\<lambda>w. w \<in> set ks) ws) = card (set ws \<inter> set ks)"
proof -
  assume "distinct ws"
  then have "length (filter (\<lambda>w. w \<in> set ks) ws) = card {w \<in> set ws. w \<in> set ks}"
    by (rule distinct_filter_card)
  also have "{w \<in> set ws. w \<in> set ks} = set ws \<inter> set ks" by auto
  finally show ?thesis .
qed

lemma score_symbol_table:
  "distinct qw \<Longrightarrow> score_symbol lower s q qw = score_table lower s q (set qw)"
  by (simp add: score_symbol_def score_table_def Let_def add_word_hits_count
        word_hits_list keyword_hits_list)

lemma scored_as_filter:
  "concat (map (\<lambda>s. if \<not> P s then [] else (let sc = f s in if sc > 0 then [(sc, s)] else [])) xs)
   = map (\<lambda>s. (f s, s)) (filter (\<lambda>s. P s \<and> 0 < f s) xs)"
  by (induction xs) (simp_all add: Let_def)


lemma insort_key_tagged':
  "insort_key (\<lambda>x. - fst x) (f s, s) (map (\<lambda>s. (f s, s)) xs)
   = map (\<lambda>s. (f s, s)) (insort_key (\<lambda>s. - f s) s xs)" for f :: "'a \<Rightarrow> int"
  by (induction xs) simp_all

lemma sort_key_tagged:
  "sort_key (\<lambda>x. - fst x) (map (\<lambda>s. (f s, s)) xs)
   = map (\<lambda>s. (f s, s)) (sort_key (\<lambda>s. - f s) xs)" for f :: "'a \<Rightarrow> int"
  by (induction xs) (simp_all add: insort_key_tagged')

lemma search_as_sort:
  "search lower split fnmatch index query kf fp =
     sort_key (\<lambda>s. - score_symbol lower s (lower query) (remdups (split (lower query))))
       (filter (\<lambda>s. passes_filters fnmatch kf fp s \<and>
                  0 < score_symbol lower s (lower query) (remdups (split (lower query))))
          (symbols index))"
  by (simp add: search_def Let_def scored_as_filter sort_key_tagged comp_def)

text \<open>
  Claim C3. The score of a symbol is the sum the specification tabulates: 20 for an exact
  name, else 10 for a name containing the query; 5 per query word in the name; 8 for the
  query in the signature and 2 per word; 5 for the query in the summary and 1 per word;
  3 per query word among the keywords; 1 per word in the docstring. \<open>search\<close> returns
  exactly the symbols that pass the filters and score above zero, in descending order of
  the score, symbols of equal score in the order of the symbol list. Without filters
  every symbol passes.
\<close>

theorem search_ranked:
  "query_score lower split query s
     = score_table lower s (lower query) (set (split (lower query))) \<and>
   mset (search lower split fnmatch index query kf fp)
     = mset (filter (\<lambda>s. passes_filters fnmatch kf fp s \<and> 0 < query_score lower split query s)
              (symbols index)) \<and>
   sorted_wrt (\<lambda>a b. query_score lower split query a \<ge> query_score lower split query b)
     (search lower split fnmatch index query kf fp) \<and>
   filter (\<lambda>s. query_score lower split query s = k)
       (search lower split fnmatch index query kf fp)
     = filter (\<lambda>s. query_score lower split query s = k)
         (filter (\<lambda>s. passes_filters fnmatch kf fp s \<and> 0 < query_score lower split query s)
            (symbols index)) \<and>
   passes_filters fnmatch None None s"
proof -
  have tab: "query_score lower split query s
     = score_table lower s (lower query) (set (split (lower query)))"
    using score_symbol_table [of "remdups (split (lower query))" lower s "lower query"]
    by (simp add: query_score_def)
  have eq: "search lower split fnmatch index query kf fp =
     sort_key (\<lambda>s. - query_score lower split query s)
       (filter (\<lambda>s. passes_filters fnmatch kf fp s \<and> 0 < query_score lower split query s)
          (symbols index))"
    unfolding query_score_def by (rule search_as_sort)
  have exact: "mset (search lower split fnmatch index query kf fp)
     = mset (filter (\<lambda>s. passes_filters fnmatch kf fp s \<and> 0 < query_score lower split query s)
              (symbols index))"
    by (simp only: eq mset_sort)
  have "sorted (map (\<lambda>s. - query_score lower split query s)
          (search lower split fnmatch index query kf fp))"
    by (simp only: eq sorted_sort_key)
  then have desc:
    "sorted_wrt (\<lambda>a b. query_score lower split query a \<ge> query_score lower split query b)
       (search lower split fnmatch index query kf fp)"
    by (simp add: sorted_map)
  have "filter (\<lambda>s. - query_score lower split query s = - k)
          (search lower split fnmatch index query kf fp)
        = filter (\<lambda>s. - query_score lower split query s = - k)
         (filter (\<lambda>s. passes_filters fnmatch kf fp s \<and> 0 < query_score lower split query s)
            (symbols index))"
    by (simp only: eq sort_key_stable)
  then have stable: "filter (\<lambda>s. query_score lower split query s = k)
       (search lower split fnmatch index query kf fp)
     = filter (\<lambda>s. query_score lower split query s = k)
         (filter (\<lambda>s. passes_filters fnmatch kf fp s \<and> 0 < query_score lower split query s)
            (symbols index))"
    by simp
  have nofilter: "passes_filters fnmatch None None s"
    by (simp add: passes_filters_def)
  from tab exact desc stable nofilter show ?thesis by blast
qed

theorem search_ranked_witness:
  "map name (search ascii_lower ascii_split (\<lambda>_ _. False) ex_index ''User'' None None)
     = [''User'', ''get_user'', ''delete_user''] \<and>
   map (query_score ascii_lower ascii_split ''User'') (symbols ex_index) = [25, 25, 35, 0] \<and>
   query_score ascii_lower ascii_split ''User'' (symbols ex_index ! 2)
     = score_table ascii_lower (symbols ex_index ! 2) ''user'' {''user''}"
proof -
  have "map name (search ascii_lower ascii_split (\<lambda>_ _. False) ex_index ''User'' None None)
     = [''User'', ''get_user'', ''delete_user'']"
    by code_simp
  moreover have "map (query_score ascii_lower ascii_split ''User'') (symbols ex_index)
     = [25, 25, 35, 0]"
    by code_simp
  moreover have "ascii_lower ''User'' = ''user''" by code_simp
  moreover have "set (ascii_split ''user'') = {''user''}" by code_simp
  ultimately show ?thesis
    using search_ranked [of ascii_lower ascii_split "''User''" "symbols ex_index ! 2"]
    by simp
qed

lemma split_acc_sublist:
  "w' \<in> set (split_acc w cs) \<Longrightarrow> sublist w' (rev w @ cs)"
proof (induction cs arbitrary: w)
  case Nil
  then show ?case by (auto split: if_splits)
next
  case (Cons c cs)
  show ?case
  proof (cases "ascii_space c")
    case True
    from Cons.prems True have "w' = rev w \<and> w \<noteq> [] \<or> w' \<in> set (split_acc [] cs)"
      by (auto split: if_splits)
    then show ?thesis
    proof
      assume "w' = rev w \<and> w \<noteq> []"
      then have "rev w @ c # cs = [] @ w' @ (c # cs)" by simp
      then show ?thesis unfolding sublist_def by blast
    next
      assume "w' \<in> set (split_acc [] cs)"
      then have "sublist w' cs" using Cons.IH [of "[]"] by simp
      then obtain ps ss where "cs = ps @ w' @ ss" by (auto simp: sublist_def)
      then have "rev w @ c # cs = (rev w @ c # ps) @ w' @ ss" by simp
      then have "sublist w' (rev w @ c # cs)" unfolding sublist_def by blast
      then show ?thesis by simp
    qed
  next
    case False
    with Cons.prems have "w' \<in> set (split_acc (c # w) cs)" by simp
    then have "sublist w' (rev (c # w) @ cs)" by (rule Cons.IH)
    then show ?thesis by simp
  qed
qed

lemma ascii_split_words: "\<forall>w \<in> set (ascii_split s). str_in w s"
  using split_acc_sublist [of _ "[]" s] by (auto simp: ascii_split_def str_in_def)

lemma word_hits_all:
  assumes "\<forall>w \<in> qw. str_in w text"
  shows "word_hits text qw = int (card qw)"
proof -
  have "{w \<in> qw. str_in w text} = qw" using assms by auto
  then show ?thesis by (simp add: word_hits_def)
qed

lemma word_hits_le:
  assumes "finite qw"
  shows "word_hits text qw \<le> int (card qw)"
proof -
  have "card {w \<in> qw. str_in w text} \<le> card qw"
    by (rule card_mono [OF assms]) auto
  then show ?thesis by (simp add: word_hits_def)
qed

lemma str_in_trans: "str_in u v \<Longrightarrow> str_in v w \<Longrightarrow> str_in u w"
  unfolding str_in_def by (rule sublist_order.order.trans)

lemma str_in_refl: "str_in u u"
  by (simp add: str_in_def)

text \<open>
  Claim C7. Three symbols agree on every field the scorer reads except the name
  (signature, summary, keywords, docstring). The lowercased name of the first equals the
  lowercased query, the second holds the query as a proper substring, the third does not
  hold it, so that a match of the third comes from the signature or the other fields.
  The query words are parts of the query, as \<open>str.split\<close> returns them. Then the
  first scores strictly above the second, which scores strictly above the third.
\<close>

theorem name_match_outranks:
  assumes others:
      "signature a = signature b" "signature b = signature c"
      "summary a = summary b" "summary b = summary c"
      "keywords a = keywords b" "keywords b = keywords c"
      "docstring a = docstring b" "docstring b = docstring c"
    and exact: "lower (name a) = lower query"
    and proper: "str_in (lower query) (lower (name b))" "lower (name b) \<noteq> lower query"
    and nomatch: "\<not> str_in (lower query) (lower (name c))"
    and words: "\<forall>w \<in> set (split (lower query)). str_in w (lower query)"
  shows "query_score lower split query a > query_score lower split query b \<and>
         query_score lower split query b > query_score lower split query c"
proof -
  let ?q = "lower query" and ?qw = "set (split (lower query))"
  have sc: "\<And>s. query_score lower split query s = score_table lower s ?q ?qw"
    using score_symbol_table [of "remdups (split (lower query))" lower _ "lower query"]
    by (simp add: query_score_def)
  have ha: "word_hits (lower (name a)) ?qw = int (card ?qw)"
    using words exact by (intro word_hits_all) simp
  have hb: "word_hits (lower (name b)) ?qw = int (card ?qw)"
  proof (rule word_hits_all, rule ballI)
    fix w assume "w \<in> set (split (lower query))"
    then have "str_in w (lower query)" using words by blast
    then show "str_in w (lower (name b))" using proper(1) by (rule str_in_trans)
  qed
  have hc: "word_hits (lower (name c)) ?qw \<le> int (card ?qw)"
    by (rule word_hits_le) simp
  have c0: "?q \<noteq> lower (name c)"
  proof
    assume "?q = lower (name c)"
    then have "str_in ?q (lower (name c))" by (simp add: str_in_refl)
    with nomatch show False by simp
  qed
  have "score_table lower a ?q ?qw = score_table lower b ?q ?qw + 10"
    using others exact proper ha hb by (simp add: score_table_def)
  moreover have "score_table lower c ?q ?qw + 10 \<le> score_table lower b ?q ?qw"
    using others proper nomatch c0 hb hc by (simp add: score_table_def)
  ultimately show ?thesis by (simp add: sc)
qed

theorem name_match_outranks_witness:
  "query_score ascii_lower ascii_split ''login'' ex_exact = 35 \<and>
   query_score ascii_lower ascii_split ''login'' ex_substring = 25 \<and>
   query_score ascii_lower ascii_split ''login'' ex_signature = 10 \<and>
   query_score ascii_lower ascii_split ''login'' ex_substring
     < query_score ascii_lower ascii_split ''login'' ex_exact \<and>
   query_score ascii_lower ascii_split ''login'' ex_signature
     < query_score ascii_lower ascii_split ''login'' ex_substring"
proof -
  have "query_score ascii_lower ascii_split ''login'' ex_substring
          < query_score ascii_lower ascii_split ''login'' ex_exact \<and>
        query_score ascii_lower ascii_split ''login'' ex_signature
          < query_score ascii_lower ascii_split ''login'' ex_substring"
    by (rule name_match_outranks; code_simp)
  moreover have "query_score ascii_lower ascii_split ''login'' ex_exact = 35"
    by code_simp
  moreover have "query_score ascii_lower ascii_split ''login'' ex_substring = 25"
    by code_simp
  moreover have "query_score ascii_lower ascii_split ''login'' ex_signature = 10"
    by code_simp
  ultimately show ?thesis by simp
qed

section \<open>Properties of the index store\<close>

subsection \<open>The file-system calls\<close>

lemma json_files_mkdir [simp]: "json_files (mkdir p st) = json_files st"
  and content_files_mkdir [simp]: "content_files (mkdir p st) = content_files st"
  and trace_mkdir [simp]: "trace (mkdir p st) = trace st @ [Mkdir p]"
  by (simp_all add: mkdir_def)

lemma json_files_write_file [simp]: "json_files (write_file p c st) = json_files st"
  and content_files_write_file [simp]:
    "content_files (write_file p c st) = AList.update p c (content_files st)"
  and trace_write_file [simp]: "trace (write_file p c st) = trace st @ [WriteFile p]"
  by (simp_all add: write_file_def)

lemma json_files_unlink [simp]: "json_files (unlink p st) = json_files st"
  and content_files_unlink [simp]:
    "content_files (unlink p st) = AList.delete p (content_files st)"
  and trace_unlink [simp]: "trace (unlink p st) = trace st @ [Unlink p]"
  by (simp_all add: unlink_def)

lemma json_files_write_json [simp]:
    "json_files (write_json p m st) = AList.update p (Object m) (json_files st)"
  and content_files_write_json [simp]: "content_files (write_json p m st) = content_files st"
  and trace_write_json [simp]: "trace (write_json p m st) = trace st @ [WriteJson p]"
  by (simp_all add: write_json_def)

lemma replace_after_write:
  "path_replace tmp ip (write_json tmp m st) =
     st\<lparr>json_files := AList.update ip (Object m)
                         (AList.delete tmp (AList.update tmp (Object m) (json_files st))),
        trace := trace st @ [WriteJson tmp, Replace tmp ip]\<rparr>"
  by (simp add: path_replace_def write_json_def update_conv')

lemma write_raw_files_fields:
  "json_files (write_raw_files dir raw st) = json_files st \<and>
   trace (write_raw_files dir raw st) = trace st @ raw_events dir raw"
  unfolding write_raw_files_def raw_events_def
  by (induction raw arbitrary: st) (simp_all add: case_prod_beta)

lemma unlink_loop_fields:
  "json_files (fold (\<lambda>fp st. if path_exists st (join dir fp) then unlink (join dir fp) st else st) ds st)
     = json_files st \<and>
   (\<exists>us. trace (fold (\<lambda>fp st. if path_exists st (join dir fp) then unlink (join dir fp) st else st) ds st)
          = trace st @ us \<and> set us \<subseteq> (\<lambda>fp. Unlink (join dir fp)) ` set ds)"
proof (induction ds arbitrary: st)
  case Nil
  then show ?case by simp
next
  case (Cons d ds)
  let ?st = "if path_exists st (join dir d) then unlink (join dir d) st else st"
  from Cons [of ?st] obtain us where
    j: "json_files (fold (\<lambda>fp st. if path_exists st (join dir fp) then unlink (join dir fp) st else st) ds ?st) = json_files ?st"
    and t: "trace (fold (\<lambda>fp st. if path_exists st (join dir fp) then unlink (join dir fp) st else st) ds ?st) = trace ?st @ us"
    and u: "set us \<subseteq> (\<lambda>fp. Unlink (join dir fp)) ` set ds"
    by blast
  show ?case
  proof (cases "path_exists st (join dir d)")
    case True
    with j t u show ?thesis
      by (intro conjI exI [of _ "Unlink (join dir d) # us"]) auto
  next
    case False
    with j t u show ?thesis
      by (intro conjI exI [of _ us]) auto
  qed
qed


lemma map_symbol_to_dict [simp]: "map symbol_to_dict xs = xs"
  by (induction xs) (simp_all add: symbol_to_dict_def)

lemma save_index_result:
  "save_index sha256 now own nm srcs syms raw langs hashes head st = (idx, st') \<Longrightarrow>
   source_files idx = srcs \<and> symbols idx = syms \<and> index_version idx = INDEX_VERSION \<and>
   file_hashes idx = (case hashes of
                        None \<Rightarrow> map (\<lambda>(fp, content). (fp, file_hash sha256 content)) raw
                      | Some h \<Rightarrow> h) \<and>
   st' = write_raw_files (content_dir own nm) raw
           (mkdir (content_dir own nm)
              (path_replace (tmp_path own nm) (index_path own nm)
                 (write_json (tmp_path own nm) (index_to_dict idx) st)))"
  by (auto simp: save_index_def Let_def)

lemma incremental_save_result:
  assumes "incremental_save sha256 now own nm changed new deleted new_symbols raw langs head st
             = Inr (Some upd, st')"
  shows "\<exists>idx. load_index st own nm = Inr (Some idx) \<and>
     source_files upd =
       sort (fold set_add changed (fold set_add new
               (fold set_discard deleted (remdups (source_files idx))))) \<and>
     symbols upd =
       filter (\<lambda>s. file s \<notin> set deleted \<union> set changed) (symbols idx) @ new_symbols \<and>
     file_hashes upd =
       fold (\<lambda>(fp, content). AList.update fp (file_hash sha256 content)) raw
         (fold AList.delete deleted (file_hashes idx)) \<and>
     st' = write_raw_files (content_dir own nm) raw
             (fold (\<lambda>fp st. if path_exists st (join (content_dir own nm) fp)
                              then unlink (join (content_dir own nm) fp) st else st)
                deleted
                (mkdir (content_dir own nm)
                   (path_replace (tmp_path own nm) (index_path own nm)
                      (write_json (tmp_path own nm) (index_to_dict upd) st))))"
  using assms
  by (auto simp: incremental_save_def try_bind_def Let_def
           split: sum.splits option.splits)


lemma incremental_save_Some:
  "load_index st own nm = Inr (Some idx) \<Longrightarrow>
   \<exists>upd st'. incremental_save sha256 now own nm changed new deleted new_symbols raw langs head st
     = Inr (Some upd, st')"
  by (simp add: incremental_save_def try_bind_def Let_def)





text \<open>
  Claim C6. The schema constant is 2. \<open>load_index\<close> returns \<open>None\<close>, and raises nothing,
  when the manifest file does not exist and when the stored \<open>index_version\<close> is above the
  constant. For a manifest that parses, holds the required keys and has a version not
  above the constant (1 when the key is absent) it rebuilds the index from the keys;
  an absent \<open>file_hashes\<close> gives the empty dict and an absent \<open>git_head\<close> the empty
  string.
\<close>

theorem load_index_gating:
  "INDEX_VERSION = 2 \<and>
   (map_of (json_files st) (index_path own nm) = None \<longrightarrow> load_index st own nm = Inr None) \<and>
   (\<forall>data v. map_of (json_files st) (index_path own nm) = Some (Object data) \<and>
        m_index_version data = Some v \<and> INDEX_VERSION < v \<longrightarrow>
        load_index st own nm = Inr None) \<and>
   (\<forall>data r ow n at sf ls sy.
        map_of (json_files st) (index_path own nm) = Some (Object data) \<and>
        (case m_index_version data of None \<Rightarrow> 1 | Some v \<Rightarrow> v) \<le> INDEX_VERSION \<and>
        m_repo data = Some r \<and> m_owner data = Some ow \<and> m_name data = Some n \<and>
        m_indexed_at data = Some at \<and> m_source_files data = Some sf \<and>
        m_languages data = Some ls \<and> m_symbols data = Some sy \<longrightarrow>
        load_index st own nm =
          Inr (Some \<lparr>repo = r, owner = ow, repo_name = n, indexed_at = at,
                     source_files = sf, languages = ls, symbols = sy,
                     index_version = (case m_index_version data of None \<Rightarrow> 1 | Some v \<Rightarrow> v),
                     file_hashes = (case m_file_hashes data of None \<Rightarrow> [] | Some h \<Rightarrow> h),
                     git_head = (case m_git_head data of None \<Rightarrow> [] | Some g \<Rightarrow> g)\<rparr>))"
  by (auto simp: load_index_def require_def try_bind_def INDEX_VERSION_def Let_def)

text \<open>
  Claim C4, as amended. Within one \<open>save_index\<close> call and within one
  \<open>incremental_save\<close> call that finds an index, the calls are, in order: the write of
  the temporary manifest, its rename over the manifest, the creation of the content
  directory, then (for \<open>incremental_save\<close>) deletions of mirrored files of
  \<open>deleted_files\<close>, then the mirror writes of \<open>raw_files\<close>. The rename happens strictly
  before every mirror write and delete of the call.
\<close>

theorem rename_precedes_mirror:
  "trace (snd (save_index sha256 now own nm srcs syms raw langs hashes head st)) =
     trace st @ [WriteJson (tmp_path own nm), Replace (tmp_path own nm) (index_path own nm),
                 Mkdir (content_dir own nm)]
       @ raw_events (content_dir own nm) raw \<and>
   (\<forall>upd st'. incremental_save sha256 now own nm changed new deleted new_symbols raw langs
                 head st = Inr (Some upd, st') \<longrightarrow>
      (\<exists>us. trace st' =
              trace st @ [WriteJson (tmp_path own nm),
                          Replace (tmp_path own nm) (index_path own nm),
                          Mkdir (content_dir own nm)]
                @ us @ raw_events (content_dir own nm) raw \<and>
            set us \<subseteq> (\<lambda>fp. Unlink (join (content_dir own nm) fp)) ` set deleted))"
proof (intro conjI allI impI)
  obtain idx st' where s: "save_index sha256 now own nm srcs syms raw langs hashes head st
    = (idx, st')" by (cases "save_index sha256 now own nm srcs syms raw langs hashes head st")
  from save_index_result [OF s]
  have "st' = write_raw_files (content_dir own nm) raw
           (mkdir (content_dir own nm)
              (path_replace (tmp_path own nm) (index_path own nm)
                 (write_json (tmp_path own nm) (index_to_dict idx) st)))" by blast
  then have "trace st' = trace st @ [WriteJson (tmp_path own nm),
       Replace (tmp_path own nm) (index_path own nm), Mkdir (content_dir own nm)]
       @ raw_events (content_dir own nm) raw"
    by (simp add: write_raw_files_fields replace_after_write)
  with s show "trace (snd (save_index sha256 now own nm srcs syms raw langs hashes head st)) =
     trace st @ [WriteJson (tmp_path own nm), Replace (tmp_path own nm) (index_path own nm),
                 Mkdir (content_dir own nm)]
       @ raw_events (content_dir own nm) raw" by simp
next
  fix upd st'
  assume a: "incremental_save sha256 now own nm changed new deleted new_symbols raw langs
                 head st = Inr (Some upd, st')"
  let ?base = "mkdir (content_dir own nm)
                   (path_replace (tmp_path own nm) (index_path own nm)
                      (write_json (tmp_path own nm) (index_to_dict upd) st))"
  let ?loop = "fold (\<lambda>fp st. if path_exists st (join (content_dir own nm) fp)
                              then unlink (join (content_dir own nm) fp) st else st)
                deleted ?base"
  from incremental_save_result [OF a]
  have st': "st' = write_raw_files (content_dir own nm) raw ?loop" by blast
  from unlink_loop_fields [of "content_dir own nm" deleted ?base]
  obtain us where us: "trace ?loop = trace ?base @ us"
    "set us \<subseteq> (\<lambda>fp. Unlink (join (content_dir own nm) fp)) ` set deleted" by blast
  have t1: "trace st' = trace ?loop @ raw_events (content_dir own nm) raw"
    by (simp only: st' write_raw_files_fields)
  have tb: "trace ?base = trace st @ [WriteJson (tmp_path own nm),
                          Replace (tmp_path own nm) (index_path own nm),
                          Mkdir (content_dir own nm)]"
    by (simp add: replace_after_write)
  have "trace st' = trace st @ [WriteJson (tmp_path own nm),
                          Replace (tmp_path own nm) (index_path own nm),
                          Mkdir (content_dir own nm)]
                @ us @ raw_events (content_dir own nm) raw"
    unfolding t1 us(1) tb by simp
  with us(2) show "\<exists>us. trace st' =
              trace st @ [WriteJson (tmp_path own nm),
                          Replace (tmp_path own nm) (index_path own nm),
                          Mkdir (content_dir own nm)]
                @ us @ raw_events (content_dir own nm) raw \<and>
            set us \<subseteq> (\<lambda>fp. Unlink (join (content_dir own nm) fp)) ` set deleted"
    by blast
qed

text \<open>
  Claim C4 as stated fails: in the trace of the example save the rename is the second
  call and both mirror writes follow it.
\<close>

theorem rename_after_mirror_counterexample:
  "trace (snd ex_saved) =
     [WriteJson ''test-repo.json.tmp'', Replace ''test-repo.json.tmp'' ''test-repo.json'',
      Mkdir ''test-repo'', Mkdir ''test-repo'', WriteFile ''test-repo/hello.py'',
      Mkdir ''test-repo'', WriteFile ''test-repo/greet.js''] \<and>
   \<not> mirror_before_rename (trace (snd ex_saved))"
  by code_simp

theorem load_index_gating_witness:
  "load_index empty_store ''test'' ''repo'' = Inr None \<and>
   load_index ex_future ''test'' ''repo'' = Inr None \<and>
   load_index ex_legacy ''o'' ''r'' =
     Inr (Some \<lparr>repo = ''o/r'', owner = ''o'', repo_name = ''r'',
                indexed_at = ''2023-01-01T00:00:00'', source_files = [''a.py''],
                languages = [(''python'', 1)], symbols = [], index_version = 1,
                file_hashes = [], git_head = []\<rparr>)"
proof -
  have a: "map_of (json_files empty_store) (index_path ''test'' ''repo'') = None"
    by code_simp
  have b: "map_of (json_files ex_future) (index_path ''test'' ''repo'')
      = Some (Object ((index_to_dict (fst ex_saved))\<lparr>m_index_version := Some 102\<rparr>))"
    by code_simp
  have b': "m_index_version ((index_to_dict (fst ex_saved))\<lparr>m_index_version := Some 102\<rparr>)
      = Some 102 \<and> INDEX_VERSION < 102"
    by (simp add: INDEX_VERSION_def)
  have c: "map_of (json_files ex_legacy) (index_path ''o'' ''r'') = Some (Object ex_legacy_manifest)"
    by code_simp
  have c': "(case m_index_version ex_legacy_manifest of None \<Rightarrow> 1 | Some v \<Rightarrow> v) \<le> INDEX_VERSION \<and>
        m_repo ex_legacy_manifest = Some ''o/r'' \<and> m_owner ex_legacy_manifest = Some ''o'' \<and>
        m_name ex_legacy_manifest = Some ''r'' \<and>
        m_indexed_at ex_legacy_manifest = Some ''2023-01-01T00:00:00'' \<and>
        m_source_files ex_legacy_manifest = Some [''a.py''] \<and>
        m_languages ex_legacy_manifest = Some [(''python'', 1)] \<and>
        m_symbols ex_legacy_manifest = Some []"
    by (simp add: ex_legacy_manifest_def INDEX_VERSION_def)
  have d: "m_index_version ex_legacy_manifest = None \<and> m_file_hashes ex_legacy_manifest = None
       \<and> m_git_head ex_legacy_manifest = None"
    by (simp add: ex_legacy_manifest_def)
  from load_index_gating [of empty_store "''test''" "''repo''"] a
  have 1: "load_index empty_store ''test'' ''repo'' = Inr None" by blast
  from load_index_gating [of ex_future "''test''" "''repo''"] b b'
  have 2: "load_index ex_future ''test'' ''repo'' = Inr None" by blast
  from load_index_gating [of ex_legacy "''o''" "''r''"] c c'
  have "load_index ex_legacy ''o'' ''r'' =
          Inr (Some \<lparr>repo = ''o/r'', owner = ''o'', repo_name = ''r'',
                     indexed_at = ''2023-01-01T00:00:00'', source_files = [''a.py''],
                     languages = [(''python'', 1)], symbols = [],
                     index_version = (case m_index_version ex_legacy_manifest of None \<Rightarrow> 1 | Some v \<Rightarrow> v),
                     file_hashes = (case m_file_hashes ex_legacy_manifest of None \<Rightarrow> [] | Some h \<Rightarrow> h),
                     git_head = (case m_git_head ex_legacy_manifest of None \<Rightarrow> [] | Some g \<Rightarrow> g)\<rparr>)"
    by blast
  with d have 3: "load_index ex_legacy ''o'' ''r'' =
     Inr (Some \<lparr>repo = ''o/r'', owner = ''o'', repo_name = ''r'',
                indexed_at = ''2023-01-01T00:00:00'', source_files = [''a.py''],
                languages = [(''python'', 1)], symbols = [], index_version = 1,
                file_hashes = [], git_head = []\<rparr>)" by simp
  from 1 2 3 show ?thesis by blast
qed

lemma ex_saved_loads: "load_index (snd ex_saved) ''test'' ''repo'' = Inr (Some (fst ex_saved))"
  by code_simp

theorem rename_precedes_mirror_witness:
  "trace (snd ex_saved) =
     trace empty_store @ [WriteJson (tmp_path ''test'' ''repo''),
        Replace (tmp_path ''test'' ''repo'') (index_path ''test'' ''repo''),
        Mkdir (content_dir ''test'' ''repo'')]
       @ raw_events (content_dir ''test'' ''repo'') ex_raw_files \<and>
   (\<exists>upd st'. ex_incremental = Inr (Some upd, st') \<and>
      (\<exists>us. trace st' =
              trace (snd ex_saved) @ [WriteJson (tmp_path ''test'' ''repo''),
                 Replace (tmp_path ''test'' ''repo'') (index_path ''test'' ''repo''),
                 Mkdir (content_dir ''test'' ''repo'')]
                @ us @ raw_events (content_dir ''test'' ''repo'')
                         [(''hello.py'', ''def goodbye():\<newline>    return 99\<newline>'')] \<and>
            set us \<subseteq> (\<lambda>fp. Unlink (join (content_dir ''test'' ''repo'') fp)) ` set [''greet.js'']))"
proof -
  note r = rename_precedes_mirror [of ex_sha256 _ "''test''" "''repo''"]
  have 1: "trace (snd ex_saved) =
     trace empty_store @ [WriteJson (tmp_path ''test'' ''repo''),
        Replace (tmp_path ''test'' ''repo'') (index_path ''test'' ''repo''),
        Mkdir (content_dir ''test'' ''repo'')]
       @ raw_events (content_dir ''test'' ''repo'') ex_raw_files"
    unfolding ex_saved_def using r by blast
  from incremental_save_Some [OF ex_saved_loads]
  obtain upd st' where u: "ex_incremental = Inr (Some upd, st')"
    unfolding ex_incremental_def by blast
  from u [unfolded ex_incremental_def] r
  have "\<exists>us. trace st' =
              trace (snd ex_saved) @ [WriteJson (tmp_path ''test'' ''repo''),
                 Replace (tmp_path ''test'' ''repo'') (index_path ''test'' ''repo''),
                 Mkdir (content_dir ''test'' ''repo'')]
                @ us @ raw_events (content_dir ''test'' ''repo'')
                         [(''hello.py'', ''def goodbye():\<newline>    return 99\<newline>'')] \<and>
            set us \<subseteq> (\<lambda>fp. Unlink (join (content_dir ''test'' ''repo'') fp)) ` set [''greet.js'']"
    by blast
  with 1 u show ?thesis by blast
qed




subsection \<open>Resolving a repository and detecting changes\<close>






lemma map_of_hashed:
  "map_of (map (\<lambda>(fp, content). (fp, f content)) xs) = map_option f \<circ> map_of xs"
  by (induction xs) (auto simp: fun_eq_iff)

text \<open>
  Claim C5. When \<open>load_index\<close> finds no index, \<open>detect_changes\<close> returns no changed and
  no deleted file and the keys of \<open>current_files\<close> as new. When it finds one, a path is
  changed iff it is a key of the stored hashes and of \<open>current_files\<close> and its stored
  hash differs from the hash of its current content, new iff it is a key of
  \<open>current_files\<close> only, deleted iff it is a key of the stored hashes only. The three
  lists are pairwise disjoint and free of duplicates.
\<close>

theorem detect_changes_partition:
  "(load_index st own nm = Inr None \<longrightarrow>
      detect_changes sha256 st own nm cur = Inr ([], map fst cur, [])) \<and>
   (\<forall>idx. load_index st own nm = Inr (Some idx) \<longrightarrow>
      (\<exists>ch nw dl. detect_changes sha256 st own nm cur = Inr (ch, nw, dl) \<and>
         set ch = {fp. fp \<in> fst ` set (file_hashes idx) \<and> fp \<in> fst ` set cur \<and>
                       map_of (file_hashes idx) fp
                         \<noteq> map_option (file_hash sha256) (map_of cur fp)} \<and>
         set nw = fst ` set cur - fst ` set (file_hashes idx) \<and>
         set dl = fst ` set (file_hashes idx) - fst ` set cur \<and>
         set ch \<inter> set nw = {} \<and> set ch \<inter> set dl = {} \<and> set nw \<inter> set dl = {} \<and>
         distinct ch \<and> distinct nw \<and> distinct dl))"
proof (intro conjI allI impI)
  assume "load_index st own nm = Inr None"
  then show "detect_changes sha256 st own nm cur = Inr ([], map fst cur, [])"
    by (simp add: detect_changes_def try_bind_def)
next
  fix idx :: CodeIndex
  assume l: "load_index st own nm = Inr (Some idx)"
  define old where "old = file_hashes idx"
  define hashed where "hashed = map (\<lambda>(fp, content). (fp, file_hash sha256 content)) cur"
  define os where "os = remdups (map fst old)"
  define ns where "ns = remdups (map fst hashed)"
  define ch where
    "ch = filter (\<lambda>fp. map_of old fp \<noteq> map_of hashed fp) (filter (\<lambda>fp. fp \<in> set ns) os)"
  define nw where "nw = filter (\<lambda>fp. fp \<notin> set os) ns"
  define dl where "dl = filter (\<lambda>fp. fp \<notin> set ns) os"
  have d: "detect_changes sha256 st own nm cur = Inr (ch, nw, dl)"
    unfolding ch_def nw_def dl_def os_def ns_def old_def hashed_def
    by (simp only: detect_changes_def try_bind_def Let_def l sum.case option.case)
  have k: "map fst hashed = map fst cur" unfolding hashed_def by (induction cur) auto
  have sos: "set os = fst ` set (file_hashes idx)" by (simp add: os_def old_def)
  have sns: "set ns = fst ` set cur" unfolding ns_def k by simp
  have m: "map_of hashed fp = map_option (file_hash sha256) (map_of cur fp)" for fp
    by (simp add: hashed_def map_of_hashed)
  have 1: "set ch = {fp. fp \<in> fst ` set (file_hashes idx) \<and> fp \<in> fst ` set cur \<and>
                       map_of (file_hashes idx) fp
                         \<noteq> map_option (file_hash sha256) (map_of cur fp)}"
  proof -
    have "set ch = {fp. fp \<in> set os \<and> fp \<in> set ns \<and> map_of old fp \<noteq> map_of hashed fp}"
      unfolding ch_def by auto
    then show ?thesis unfolding sos sns m old_def .
  qed
  have 2: "set nw = fst ` set cur - fst ` set (file_hashes idx)"
  proof -
    have "set nw = set ns - set os" unfolding nw_def by auto
    then show ?thesis unfolding sos sns .
  qed
  have 3: "set dl = fst ` set (file_hashes idx) - fst ` set cur"
  proof -
    have "set dl = set os - set ns" unfolding dl_def by auto
    then show ?thesis unfolding sos sns .
  qed
  have 4: "set ch \<inter> set nw = {} \<and> set ch \<inter> set dl = {} \<and> set nw \<inter> set dl = {}"
    unfolding ch_def nw_def dl_def by auto
  have 5: "distinct ch \<and> distinct nw \<and> distinct dl"
    unfolding ch_def nw_def dl_def os_def ns_def by simp
  from d 1 2 3 4 5
  show "\<exists>ch nw dl. detect_changes sha256 st own nm cur = Inr (ch, nw, dl) \<and>
         set ch = {fp. fp \<in> fst ` set (file_hashes idx) \<and> fp \<in> fst ` set cur \<and>
                       map_of (file_hashes idx) fp
                         \<noteq> map_option (file_hash sha256) (map_of cur fp)} \<and>
         set nw = fst ` set cur - fst ` set (file_hashes idx) \<and>
         set dl = fst ` set (file_hashes idx) - fst ` set cur \<and>
         set ch \<inter> set nw = {} \<and> set ch \<inter> set dl = {} \<and> set nw \<inter> set dl = {} \<and>
         distinct ch \<and> distinct nw \<and> distinct dl"
    by blast
qed

theorem detect_changes_partition_witness:
  "detect_changes ex_sha256 empty_store ''test'' ''repo'' ex_current_files
     = Inr ([], [''hello.py'', ''extra.py''], []) \<and>
   detect_changes ex_sha256 (snd ex_saved) ''test'' ''repo'' ex_current_files
     = Inr ([''hello.py''], [''extra.py''], [''greet.js''])"
proof -
  have "load_index empty_store ''test'' ''repo'' = Inr None" by code_simp
  with detect_changes_partition [of empty_store "''test''" "''repo''" ex_sha256 ex_current_files]
  have "detect_changes ex_sha256 empty_store ''test'' ''repo'' ex_current_files
     = Inr ([], map fst ex_current_files, [])" by blast
  moreover have "map fst ex_current_files = [''hello.py'', ''extra.py'']"
    by (simp add: ex_current_files_def)
  moreover note t = detect_changes_partition
      [of "snd ex_saved" "''test''" "''repo''" ex_sha256 ex_current_files,
       THEN conjunct2, rule_format, OF ex_saved_loads]
  moreover from t obtain ch nw dl where
    "detect_changes ex_sha256 (snd ex_saved) ''test'' ''repo'' ex_current_files = Inr (ch, nw, dl)"
    and "set nw = fst ` set ex_current_files - fst ` set (file_hashes (fst ex_saved))"
    by - (elim exE conjE, rule that)
  moreover have "detect_changes ex_sha256 (snd ex_saved) ''test'' ''repo'' ex_current_files
     = Inr ([''hello.py''], [''extra.py''], [''greet.js''])" by code_simp
  ultimately show ?thesis by simp
qed

subsection \<open>Byte-range retrieval\<close>

lemma utf8_decode_replace_Nil [simp]: "utf8_decode_replace [] = []"
  by (subst utf8_decode_replace.simps) simp

lemma utf8_decode_well_formed:
  "well_formed_utf8 s \<Longrightarrow> utf8_decode_replace s = s"
proof (induction rule: well_formed_utf8.induct)
  case wf_empty
  show ?case by simp
next
  case (wf_one c s)
  then have "utf8_scan (c # s) = (True, 1)" by (simp add: utf8_scan_def)
  with wf_one show ?case by (subst utf8_decode_replace.simps) simp
next
  case (wf_two c1 c2 s)
  then have "utf8_scan (c1 # c2 # s) = (True, 2)" by (simp add: utf8_scan_def)
  with wf_two show ?case by (subst utf8_decode_replace.simps) simp
next
  case (wf_three c1 c2 c3 s)
  then have "utf8_scan (c1 # c2 # c3 # s) = (True, 3)" by (simp add: utf8_scan_def)
  with wf_three show ?case
    by (subst utf8_decode_replace.simps) (simp add: numeral_3_eq_3)
next
  case (wf_four c1 c2 c3 c4 s)
  then have "utf8_scan (c1 # c2 # c3 # c4 # s) = (True, 4)" by (simp add: utf8_scan_def)
  with wf_four show ?case
    by (subst utf8_decode_replace.simps) (simp add: numeral_eq_Suc)
qed

lemma ascii_well_formed:
  "\<forall>c \<in> set s. (of_char c :: nat) < 128 \<Longrightarrow> well_formed_utf8 s"
  by (induction s) (auto intro: well_formed_utf8.intros)

lemma load_index_None_iff:
  "load_index st own nm = Inr None \<longleftrightarrow>
     map_of (json_files st) (index_path own nm) = None \<or>
     (\<exists>data v. map_of (json_files st) (index_path own nm) = Some (Object data) \<and>
        m_index_version data = Some v \<and> INDEX_VERSION < v)"
  by (auto simp: load_index_def require_def try_bind_def INDEX_VERSION_def Let_def
           split: option.splits json_file.splits)

lemma get_symbol_content_None_iff:
  "get_symbol_content st own nm sid = Inr None \<longleftrightarrow>
     load_index st own nm = Inr None \<or>
     (\<exists>idx. load_index st own nm = Inr (Some idx) \<and>
        (get_symbol idx sid = None \<or>
         (\<exists>s. get_symbol idx sid = Some s \<and>
              map_of (content_files st) (join (content_dir own nm) (file s)) = None)))"
  by (auto simp: get_symbol_content_def try_bind_def seek_read_def
           split: sum.splits option.splits if_splits)




lemma get_symbol_first:
  "distinct (map symbol_id (symbols idx)) \<Longrightarrow> s \<in> set (symbols idx) \<Longrightarrow>
   get_symbol idx (symbol_id s) = Some s"
proof -
  have "distinct (map symbol_id xs) \<Longrightarrow> s \<in> set xs \<Longrightarrow>
        find (\<lambda>x. symbol_id x = symbol_id s) xs = Some s" for xs
    by (induction xs) (auto simp: image_iff)
  then show "distinct (map symbol_id (symbols idx)) \<Longrightarrow> s \<in> set (symbols idx) \<Longrightarrow>
   get_symbol idx (symbol_id s) = Some s"
    by (simp add: get_symbol_def)
qed

lemma get_symbol_content_read:
  assumes "load_index st own nm = Inr (Some idx)" and "get_symbol idx sid = Some s"
    and "map_of (content_files st) (join (content_dir own nm) (file s)) = Some bytes"
    and "0 \<le> byte_offset s" and "0 \<le> byte_length s"
  shows "get_symbol_content st own nm sid =
           Inr (Some (utf8_decode_replace
                        (take (nat (byte_length s)) (drop (nat (byte_offset s)) bytes))))"
  using assms by (simp add: get_symbol_content_def try_bind_def seek_read_def)





text \<open>
  Claim C1, as amended. Let an index load, with distinct symbol ids, and let \<open>s\<close> be one
  of its symbols whose mirrored file exists, whose \<open>byte_offset\<close> and \<open>byte_length\<close> are
  not negative, whose range ends within the file and holds well-formed UTF-8. Then
  \<open>get_symbol_content\<close> for the id of \<open>s\<close> returns the string whose UTF-8 encoding is
  exactly the \<open>byte_length\<close> bytes of the file from \<open>byte_offset\<close>: its encoded length
  is \<open>byte_length\<close>, and when \<open>content_hash\<close> is the SHA-256 of those bytes, hashing the
  encoding of the result gives \<open>content_hash\<close> again. \<open>None\<close> is returned exactly for a
  missing manifest, a manifest of a future version, an unknown symbol id and a missing
  mirrored file.
\<close>

theorem byte_exact_retrieval:
  "(\<forall>idx s bytes.
      load_index st own nm = Inr (Some idx) \<and> s \<in> set (symbols idx) \<and>
      distinct (map symbol_id (symbols idx)) \<and>
      map_of (content_files st) (join (content_dir own nm) (file s)) = Some bytes \<and>
      0 \<le> byte_offset s \<and> 0 \<le> byte_length s \<and>
      byte_offset s + byte_length s \<le> int (length bytes) \<and>
      well_formed_utf8 (take (nat (byte_length s)) (drop (nat (byte_offset s)) bytes)) \<longrightarrow>
        (\<exists>src. get_symbol_content st own nm (symbol_id s) = Inr (Some src) \<and>
               src = take (nat (byte_length s)) (drop (nat (byte_offset s)) bytes) \<and>
               int (length src) = byte_length s \<and>
               (content_hash s
                  = sha256 (take (nat (byte_length s)) (drop (nat (byte_offset s)) bytes)) \<longrightarrow>
                sha256 src = content_hash s))) \<and>
   (get_symbol_content st own nm sid = Inr None \<longleftrightarrow>
      map_of (json_files st) (index_path own nm) = None \<or>
      (\<exists>data v. map_of (json_files st) (index_path own nm) = Some (Object data) \<and>
         m_index_version data = Some v \<and> INDEX_VERSION < v) \<or>
      (\<exists>idx. load_index st own nm = Inr (Some idx) \<and>
         (get_symbol idx sid = None \<or>
          (\<exists>s. get_symbol idx sid = Some s \<and>
               map_of (content_files st) (join (content_dir own nm) (file s)) = None))))"
proof (intro conjI allI impI)
  fix idx :: CodeIndex and s :: symbol and bytes :: string
  let ?slice = "take (nat (byte_length s)) (drop (nat (byte_offset s)) bytes)"
  assume a: "load_index st own nm = Inr (Some idx) \<and> s \<in> set (symbols idx) \<and>
      distinct (map symbol_id (symbols idx)) \<and>
      map_of (content_files st) (join (content_dir own nm) (file s)) = Some bytes \<and>
      0 \<le> byte_offset s \<and> 0 \<le> byte_length s \<and>
      byte_offset s + byte_length s \<le> int (length bytes) \<and>
      well_formed_utf8 ?slice"
  then have a1: "load_index st own nm = Inr (Some idx)"
    and a2: "s \<in> set (symbols idx)" and a3: "distinct (map symbol_id (symbols idx))"
    and a4: "map_of (content_files st) (join (content_dir own nm) (file s)) = Some bytes"
    and a5: "0 \<le> byte_offset s" and a6: "0 \<le> byte_length s"
    and a7: "byte_offset s + byte_length s \<le> int (length bytes)"
    and a8: "well_formed_utf8 ?slice"
    by blast+
  from a3 a2 have g: "get_symbol idx (symbol_id s) = Some s" by (rule get_symbol_first)
  have "get_symbol_content st own nm (symbol_id s) = Inr (Some (utf8_decode_replace ?slice))"
    by (rule get_symbol_content_read [OF a1 g a4 a5 a6])
  with a8 have r: "get_symbol_content st own nm (symbol_id s) = Inr (Some ?slice)"
    by (simp add: utf8_decode_well_formed)
  from a5 a6 a7 have l: "int (length ?slice) = byte_length s" by simp
  from r l show "\<exists>src. get_symbol_content st own nm (symbol_id s) = Inr (Some src) \<and>
               src = ?slice \<and> int (length src) = byte_length s \<and>
               (content_hash s = sha256 ?slice \<longrightarrow> sha256 src = content_hash s)"
    by simp
next
  show "get_symbol_content st own nm sid = Inr None \<longleftrightarrow>
      map_of (json_files st) (index_path own nm) = None \<or>
      (\<exists>data v. map_of (json_files st) (index_path own nm) = Some (Object data) \<and>
         m_index_version data = Some v \<and> INDEX_VERSION < v) \<or>
      (\<exists>idx. load_index st own nm = Inr (Some idx) \<and>
         (get_symbol idx sid = None \<or>
          (\<exists>s. get_symbol idx sid = Some s \<and>
               map_of (content_files st) (join (content_dir own nm) (file s)) = None)))"
    unfolding get_symbol_content_None_iff load_index_None_iff by blast
qed

text \<open>
  Claim C1 as stated fails in saved indexes. A symbol that claims 50 bytes of a file of
  31 yields a string of 31 bytes. A symbol of length 1 that covers the first byte of a
  two-byte character yields U+FFFD, three bytes. And for the manifest patched to version
  102 the result is \<open>None\<close> though manifest, symbol and mirrored file exist.
\<close>

theorem byte_exact_retrieval_counterexample:
  "map (\<lambda>s. (symbol_id s, byte_length s)) (symbols (fst ex_bad_saved)) ! 1
     = (''greet.js::greet#function'', 50) \<and>
   get_symbol_content (snd ex_bad_saved) ''test'' ''repo'' ''greet.js::greet#function''
     = Inr (Some ''function greet() { return 1; }\<newline>'') \<and>
   length ''function greet() { return 1; }\<newline>'' = 31 \<and>
   Option.bind (read_manifest ex_cut_character ''test'' ''cut'')
       (map_option (map (\<lambda>s. (symbol_id s, byte_length s))) \<circ> m_symbols)
     = Some [(''e.py::E#constant'', 1)] \<and>
   get_symbol_content ex_cut_character ''test'' ''cut'' ''e.py::E#constant''
     = Inr (Some [CHR 0xEF, CHR 0xBF, CHR 0xBD]) \<and>
   path_exists ex_future ''test-repo/hello.py'' \<and>
   get_symbol_content ex_future ''test'' ''repo'' ''hello.py::hello#function'' = Inr None"
  by code_simp

theorem byte_exact_retrieval_witness:
  "get_symbol_content (snd ex_saved) ''test'' ''repo'' (symbol_id ex_hello)
     = Inr (Some ''def hello():\<newline>    pass'') \<and>
   int (length ''def hello():\<newline>    pass'') = byte_length ex_hello \<and>
   ex_sha256 ''def hello():\<newline>    pass'' = content_hash ex_hello"
proof -
  let ?bytes = "''def hello():\<newline>    pass\<newline>''"
  let ?slice = "take (nat (byte_length ex_hello)) (drop (nat (byte_offset ex_hello)) ?bytes)"
  note t = byte_exact_retrieval [THEN conjunct1, rule_format,
      of "snd ex_saved" "''test''" "''repo''" "fst ex_saved" ex_hello ?bytes ex_sha256]
  have sl: "?slice = ''def hello():\<newline>    pass''" by code_simp
  have h1: "ex_hello \<in> set (symbols (fst ex_saved))" by code_simp
  have h2: "distinct (map symbol_id (symbols (fst ex_saved)))" by code_simp
  have h3: "map_of (content_files (snd ex_saved))
              (join (content_dir ''test'' ''repo'') (file ex_hello)) = Some ?bytes"
    by code_simp
  have h4: "0 \<le> byte_offset ex_hello \<and> 0 \<le> byte_length ex_hello \<and>
      byte_offset ex_hello + byte_length ex_hello \<le> int (length ?bytes)" by code_simp
  have "\<forall>c \<in> set ''def hello():\<newline>    pass''. (of_char c :: nat) < 128" by code_simp
  then have "well_formed_utf8 ''def hello():\<newline>    pass''" by (rule ascii_well_formed)
  then have h5: "well_formed_utf8 ?slice" by (simp only: sl)
  have h6: "content_hash ex_hello = ex_sha256 ?slice" unfolding sl by code_simp
  from t ex_saved_loads h1 h2 h3 h4 h5
  have "\<exists>src. get_symbol_content (snd ex_saved) ''test'' ''repo'' (symbol_id ex_hello)
            = Inr (Some src) \<and> src = ?slice \<and> int (length src) = byte_length ex_hello \<and>
          (content_hash ex_hello = ex_sha256 ?slice \<longrightarrow> ex_sha256 src = content_hash ex_hello)"
    by blast
  with h6 have "get_symbol_content (snd ex_saved) ''test'' ''repo'' (symbol_id ex_hello)
            = Inr (Some ?slice) \<and> int (length ?slice) = byte_length ex_hello \<and>
          ex_sha256 ?slice = content_hash ex_hello"
    by blast
  then show ?thesis by (simp only: sl)
qed

subsection \<open>Incremental save\<close>












end
